theory Spec2Isabelle
  imports Main "HOL-Library.Sublist"
begin

section \<open>Values and documents\<close>

text \<open>
  An \<open>ObjectId\<close> of the program is a JavaScript object: a reference into the heap
  (\<open>heapRef\<close>) together with the identifier it carries (\<open>bytes\<close>, the 12-byte value,
  here a natural number). Two distinct objects may carry the same identifier.
\<close>

datatype ObjectId = ObjectId (heapRef: nat) (bytes: nat)

text \<open>
  \<open>Array.prototype.includes\<close> compares with SameValueZero: on objects that is identity
  of reference, not equality of contents (profile.ts, lines 56 and 62).
\<close>

definition array_includes :: "ObjectId list \<Rightarrow> ObjectId \<Rightarrow> bool" where
  "array_includes xs x = (heapRef x \<in> set (map heapRef xs))"

datatype VerificationStatus = Verified | Unverified

text \<open>
  \<open>interface ProfileDoc\<close> (profile.ts, lines 7 to 17). The record is polymorphic in the
  representation of identifiers: a stored document holds identifier values
  (\<open>nat ProfileDoc\<close>), a document in the program's memory holds \<open>ObjectId\<close> objects.
\<close>

record 'i ProfileDoc =
  userId :: 'i
  name :: string
  expertise :: "string list"
  interests :: "string list"
  pastExperience :: "string list"
  verificationStatus :: VerificationStatus
  gender :: string
  followers :: "'i list"
  following :: "'i list"

text \<open>
  The state: the collection \<open>profiles\<close> of \<open>ProfileConcept\<close>, in storage order, and the
  next free heap reference of the running program.
\<close>

record State =
  heapNext :: nat
  profiles :: "nat ProfileDoc list"

datatype error = ProfileNotFoundError ObjectId

section \<open>The document collection\<close>

text \<open>
  Modelled from the spec: \<open>DocCollection\<close> (framework/doc) is not among the sources.
  The spec describes it as an external document store offering create-one, read-one
  and update by a filter predicate, with no transaction across documents. Documents
  cross its boundary by value: a write stores the identifiers of the objects it is
  given, and every read builds new objects for the document it returns.
\<close>

text \<open>
  Modelled from the spec: the objects a read builds for a stored array of identifiers, one new
  heap reference for each, in order.
\<close>

definition fresh :: "nat \<Rightarrow> nat list \<Rightarrow> ObjectId list" where
  "fresh n vs = map (\<lambda>(i, v). ObjectId (n + i) v) (enumerate 0 vs)"

text \<open>
  Modelled from the spec: the number of objects a read of the document builds.
\<close>

definition docSize :: "nat ProfileDoc \<Rightarrow> nat" where
  "docSize d = 1 + length (followers d) + length (following d)"

text \<open>
  Modelled from the spec: the document a read returns, every identifier in it a new object.
\<close>

definition deserialize :: "nat \<Rightarrow> nat ProfileDoc \<Rightarrow> ObjectId ProfileDoc" where
  "deserialize n d =
     \<lparr> userId = ObjectId n (userId d),
       name = name d,
       expertise = expertise d,
       interests = interests d,
       pastExperience = pastExperience d,
       verificationStatus = verificationStatus d,
       gender = gender d,
       followers = fresh (n + 1) (followers d),
       following = fresh (n + 1 + length (followers d)) (following d) \<rparr>"

text \<open>
  Modelled from the spec: the filter \<open>{ userId }\<close> matches a stored document by the
  value of the identifier.
\<close>

definition matches :: "ObjectId \<Rightarrow> nat ProfileDoc \<Rightarrow> bool" where
  "matches uid d = (userId d = bytes uid)"

text \<open>
  Modelled from the spec: read-one returns the first stored document that matches the filter,
  or nothing (\<open>null\<close>) when none does.
\<close>

definition readOne :: "ObjectId \<Rightarrow> State \<Rightarrow> ObjectId ProfileDoc option \<times> State" where
  "readOne uid s =
     (case find (matches uid) (profiles s) of
        None \<Rightarrow> (None, s)
      | Some d \<Rightarrow> (Some (deserialize (heapNext s) d),
                   s\<lparr>heapNext := heapNext s + docSize d\<rparr>))"

text \<open>
  Modelled from the spec: an update reaches the first stored document that matches the filter.
\<close>

fun updateFirst :: "('a \<Rightarrow> bool) \<Rightarrow> ('a \<Rightarrow> 'a) \<Rightarrow> 'a list \<Rightarrow> 'a list" where
  "updateFirst P f [] = []"
| "updateFirst P f (x # xs) = (if P x then f x # xs else x # updateFirst P f xs)"

text \<open>
  Modelled from the spec: update sets the given fields of the first matching document and
  leaves its other fields; with no matching document it does nothing.
\<close>

definition partialUpdateOne ::
  "ObjectId \<Rightarrow> (nat ProfileDoc \<Rightarrow> nat ProfileDoc) \<Rightarrow> State \<Rightarrow> State" where
  "partialUpdateOne uid upd s = s\<lparr>profiles := updateFirst (matches uid) upd (profiles s)\<rparr>"

text \<open>
  Modelled from the spec: create-one adds the document at the end of the collection.
\<close>

definition createOne :: "ObjectId ProfileDoc \<Rightarrow> State \<Rightarrow> State" where
  "createOne item s =
     s\<lparr>profiles := profiles s @
        [\<lparr> userId = bytes (userId item),
           name = name item,
           expertise = expertise item,
           interests = interests item,
           pastExperience = pastExperience item,
           verificationStatus = verificationStatus item,
           gender = gender item,
           followers = map bytes (followers item),
           following = map bytes (following item) \<rparr>]\<rparr>"

section \<open>ProfileConcept\<close>

text \<open>\<open>createProfile\<close> (profile.ts, lines 29 to 41).\<close>

definition createProfile ::
  "ObjectId \<Rightarrow> string \<Rightarrow> string list \<Rightarrow> string list \<Rightarrow> string list \<Rightarrow> string \<Rightarrow> State \<Rightarrow> State" where
  "createProfile uid nm exps ints past gen s =
     createOne
       \<lparr> userId = uid,
         name = nm,
         expertise = exps,
         interests = ints,
         pastExperience = past,
         verificationStatus = Unverified,
         gender = gen,
         followers = [],
         following = [] \<rparr> s"

text \<open>The two partial updates that \<open>followUser\<close> sends: \<open>{ followers }\<close> and \<open>{ following }\<close>.\<close>

definition setFollowers :: "ObjectId list \<Rightarrow> nat ProfileDoc \<Rightarrow> nat ProfileDoc" where
  "setFollowers xs d = d\<lparr>followers := map bytes xs\<rparr>"

definition setFollowing :: "ObjectId list \<Rightarrow> nat ProfileDoc \<Rightarrow> nat ProfileDoc" where
  "setFollowing xs d = d\<lparr>following := map bytes xs\<rparr>"

definition followedMsg :: string where
  "followedMsg = ''User followed successfully''"

text \<open>\<open>followUser\<close> (profile.ts, lines 51 to 68).\<close>

definition followUser :: "ObjectId \<Rightarrow> ObjectId \<Rightarrow> State \<Rightarrow> (error + string) \<times> State" where
  "followUser uid targetUserId s =
     (case readOne targetUserId s of
        (None, s1) \<Rightarrow> (Inl (ProfileNotFoundError targetUserId), s1)
      | (Some profile, s1) \<Rightarrow>
          (let s2 = (if \<not> array_includes (followers profile) uid
                     then partialUpdateOne targetUserId
                            (setFollowers (followers profile @ [uid])) s1
                     else s1)
           in case readOne uid s2 of
                (None, s3) \<Rightarrow> (Inr followedMsg, s3)
              | (Some currentUserProfile, s3) \<Rightarrow>
                  (Inr followedMsg,
                   if \<not> array_includes (following currentUserProfile) targetUserId
                   then partialUpdateOne uid
                          (setFollowing (following currentUserProfile @ [targetUserId])) s3
                   else s3)))"

text \<open>\<open>getFollowers\<close> and \<open>getFollowing\<close> (profile.ts, lines 78 to 92).\<close>

definition getFollowers :: "ObjectId \<Rightarrow> State \<Rightarrow> (error + ObjectId list) \<times> State" where
  "getFollowers uid s =
     (case readOne uid s of
        (None, s1) \<Rightarrow> (Inl (ProfileNotFoundError uid), s1)
      | (Some profile, s1) \<Rightarrow> (Inr (followers profile), s1))"

definition getFollowing :: "ObjectId \<Rightarrow> State \<Rightarrow> (error + ObjectId list) \<times> State" where
  "getFollowing uid s =
     (case readOne uid s of
        (None, s1) \<Rightarrow> (Inl (ProfileNotFoundError uid), s1)
      | (Some profile, s1) \<Rightarrow> (Inr (following profile), s1))"

section \<open>Reading the stored state\<close>

definition profileOf :: "State \<Rightarrow> nat \<Rightarrow> nat ProfileDoc option" where
  "profileOf s a = find (\<lambda>d. userId d = a) (profiles s)"

definition followersOf :: "State \<Rightarrow> nat \<Rightarrow> nat list" where
  "followersOf s a = (case profileOf s a of None \<Rightarrow> [] | Some p \<Rightarrow> followers p)"

definition followingOf :: "State \<Rightarrow> nat \<Rightarrow> nat list" where
  "followingOf s a = (case profileOf s a of None \<Rightarrow> [] | Some p \<Rightarrow> following p)"

text \<open>An object handed to an operation was allocated before the call.\<close>

definition allocated :: "State \<Rightarrow> ObjectId \<Rightarrow> bool" where
  "allocated s x = (heapRef x < heapNext s)"

section \<open>Sequences of calls and the symmetry invariant\<close>

text \<open>
  A sequence of \<open>followUser\<close> calls, each one a request of its own: a call that throws
  ends its request and the next call runs on the state it left.
\<close>

fun followAll :: "(ObjectId \<times> ObjectId) list \<Rightarrow> State \<Rightarrow> State" where
  "followAll [] s = s"
| "followAll ((u, t) # ops) s = followAll ops (snd (followUser u t s))"

text \<open>Every call of the sequence is handed objects that exist when it is made.\<close>

fun allocatedAll :: "(ObjectId \<times> ObjectId) list \<Rightarrow> State \<Rightarrow> bool" where
  "allocatedAll [] s = True"
| "allocatedAll ((u, t) # ops) s =
     (allocated s u \<and> allocated s t \<and> allocatedAll ops (snd (followUser u t s)))"

text \<open>
  The symmetry of the two mirrors, over the identities that have a profile:
  \<open>a\<close> is among the followers of \<open>b\<close> exactly when \<open>b\<close> is among those \<open>a\<close> follows.
\<close>

definition symmetric :: "State \<Rightarrow> bool" where
  "symmetric s =
     (\<forall>a \<in> set (map userId (profiles s)). \<forall>b \<in> set (map userId (profiles s)).
        (a \<in> set (followersOf s b)) = (b \<in> set (followingOf s a)))"

text \<open>The effect of one partial update on the stored document it reaches.\<close>

definition addFollower :: "nat \<Rightarrow> nat ProfileDoc \<Rightarrow> nat ProfileDoc" where
  "addFollower a d = d\<lparr>followers := followers d @ [a]\<rparr>"

definition addFollowing :: "nat \<Rightarrow> nat ProfileDoc \<Rightarrow> nat ProfileDoc" where
  "addFollowing b d = d\<lparr>following := following d @ [b]\<rparr>"

section \<open>Concrete states\<close>

definition alice :: ObjectId where "alice = ObjectId 0 101"
definition bob :: ObjectId where "bob = ObjectId 1 102"

definition emptyState :: State where
  "emptyState = \<lparr> heapNext = 2, profiles = [] \<rparr>"

definition onlyAlice :: State where
  "onlyAlice = createProfile alice ''Alice'' [] [] [] ''f'' emptyState"

definition onlyBob :: State where
  "onlyBob = createProfile bob ''Bob'' [] [] [] ''m'' emptyState"

definition aliceAndBob :: State where
  "aliceAndBob = createProfile bob ''Bob'' [] [] [] ''m'' onlyAlice"

text \<open>A stored state in which alice already follows bob.\<close>

definition aliceFollowsBob :: State where
  "aliceFollowsBob =
     \<lparr> heapNext = 2,
       profiles =
         [\<lparr> userId = 101, name = ''Alice'', expertise = [], interests = [],
            pastExperience = [], verificationStatus = Unverified, gender = ''f'',
            followers = [], following = [102] \<rparr>,
          \<lparr> userId = 102, name = ''Bob'', expertise = [], interests = [],
            pastExperience = [], verificationStatus = Unverified, gender = ''m'',
            followers = [101], following = [] \<rparr>] \<rparr>"

section \<open>The friend-request store\<close>

text \<open>
  Modelled from the spec: \<open>FriendingConcept\<close> (concepts/friending) is not among the
  sources; only its caller is (the route \<open>acceptFriendRequest\<close>, which passes the
  requester first and the session's user second). The definitions follow section 4.1
  of the spec: a pending request is a directed pair, a friendship an unordered pair
  stored once and read in both orientations, and at most one pending request exists
  for a pair.
\<close>

text \<open>
  Modelled from the spec: the error kinds of section 7 that the request store raises.
\<close>

datatype friendError =
  SelfRequestError | AlreadyFriendsError | DuplicateRequestError | RequestNotFoundError

text \<open>
  Modelled from the spec: the pending requests (from, to) and the friendship edges.
\<close>

record Friending =
  requests :: "(nat \<times> nat) list"
  friendships :: "(nat \<times> nat) list"

text \<open>
  Modelled from the spec: \<open>sendRequest(from, to)\<close> of section 4.1.
\<close>

definition sendRequest :: "nat \<Rightarrow> nat \<Rightarrow> Friending \<Rightarrow> friendError + Friending" where
  "sendRequest from to s =
     (if from = to then Inl SelfRequestError
      else if (from, to) \<in> set (friendships s) \<or> (to, from) \<in> set (friendships s)
        then Inl AlreadyFriendsError
      else if (from, to) \<in> set (requests s) \<or> (to, from) \<in> set (requests s)
        then Inl DuplicateRequestError
      else Inr (s\<lparr>requests := requests s @ [(from, to)]\<rparr>))"

text \<open>
  Modelled from the spec: \<open>acceptRequest(from, to)\<close> of section 4.1: it creates the edge and
  discards the pending record.
\<close>

definition acceptRequest :: "nat \<Rightarrow> nat \<Rightarrow> Friending \<Rightarrow> friendError + Friending" where
  "acceptRequest from to s =
     (if (from, to) \<notin> set (requests s) then Inl RequestNotFoundError
      else Inr (s\<lparr>requests := remove1 (from, to) (requests s),
                  friendships := friendships s @ [(from, to)]\<rparr>))"

text \<open>
  Modelled from the spec: \<open>getRequests(user)\<close>, the pending requests whose recipient is the user.
\<close>

definition getRequests :: "nat \<Rightarrow> Friending \<Rightarrow> (nat \<times> nat) list" where
  "getRequests user s = filter (\<lambda>(from, to). to = user) (requests s)"

text \<open>
  Modelled from the spec: \<open>getFriends(user)\<close>, the identities forming an edge with the user.
\<close>

definition getFriends :: "nat \<Rightarrow> Friending \<Rightarrow> nat list" where
  "getFriends user s =
     map (\<lambda>(a, b). if a = user then b else a)
       (filter (\<lambda>(a, b). a = user \<or> b = user) (friendships s))"

definition noRequests :: Friending where
  "noRequests = \<lparr> requests = [], friendships = [] \<rparr>"

section \<open>Basic facts\<close>

lemma bytes_fresh: "map bytes (fresh n vs) = vs"
proof -
  have "bytes \<circ> (\<lambda>(i, v). ObjectId (n + i) v) = snd"
    by (simp add: fun_eq_iff)
  then have "map bytes (fresh n vs) = map snd (enumerate 0 vs)"
    by (simp add: fresh_def)
  then show ?thesis by simp
qed

lemma heapRef_fresh: "x \<in> set (fresh n vs) \<Longrightarrow> n \<le> heapRef x"
  by (auto simp: fresh_def)

lemma not_includes_fresh: "heapRef x < n \<Longrightarrow> \<not> array_includes (fresh n vs) x"
  using heapRef_fresh [of _ n vs] by (fastforce simp: array_includes_def)


lemma matches_eq: "matches x = (\<lambda>d. userId d = bytes x)"
  by (simp add: matches_def fun_eq_iff)

lemma updateFirst_cong_find:
  "find P xs = Some d \<Longrightarrow> f d = g d \<Longrightarrow> updateFirst P f xs = updateFirst P g xs"
  by (induction xs) (auto split: if_splits)

lemma updateFirst_none: "find P xs = None \<Longrightarrow> updateFirst P f xs = xs"
  by (induction xs) (auto split: if_splits)

lemma updateFirst_id: "updateFirst P (\<lambda>d. d) xs = xs"
  by (induction xs) auto

lemma length_updateFirst: "length (updateFirst P f xs) = length xs"
  by (induction xs) auto

lemma find_updateFirst_same:
  "(\<And>d. P (f d) = P d) \<Longrightarrow> find P (updateFirst P f xs) = map_option f (find P xs)"
  by (induction xs) auto

lemma find_updateFirst_other:
  "(\<And>d. P (f d) = P d) \<Longrightarrow> (\<And>d. P d \<Longrightarrow> \<not> Q d) \<Longrightarrow>
   find P (updateFirst Q f xs) = find P xs"
  by (induction xs) auto

lemma nth_updateFirst:
  "i < length xs \<Longrightarrow>
   updateFirst P f xs ! i = xs ! i \<or> (P (xs ! i) \<and> updateFirst P f xs ! i = f (xs ! i))"
proof (induction xs arbitrary: i)
  case Nil
  then show ?case by simp
next
  case (Cons x xs)
  then show ?case by (cases i) auto
qed

lemma readOne_profiles: "profiles (snd (readOne x s)) = profiles s"
  by (simp add: readOne_def split: option.splits)

lemma readOne_heapNext: "heapNext s \<le> heapNext (snd (readOne x s))"
  by (simp add: readOne_def split: option.splits)

lemma readOne_None: "fst (readOne x s) = None \<Longrightarrow> snd (readOne x s) = s"
  by (simp add: readOne_def split: option.splits)

text \<open>
  What a call stores when the objects it is given were allocated before it: both
  membership tests compare them with objects built by the read, so both are false.
\<close>

lemma followUser_allocated:
  assumes "allocated s u" "allocated s t"
  shows "profiles (snd (followUser u t s)) =
     (if find (matches t) (profiles s) = None then profiles s
      else updateFirst (matches u) (addFollowing (bytes t))
             (updateFirst (matches t) (addFollower (bytes u)) (profiles s)))"
proof (cases "find (matches t) (profiles s)")
  case None
  then show ?thesis by (simp add: followUser_def readOne_def)
next
  case (Some d)
  note target = Some
  let ?ps1 = "updateFirst (matches t) (addFollower (bytes u)) (profiles s)"
  have inc1: "\<not> array_includes (followers (deserialize (heapNext s) d)) u"
    using assms(1) by (simp add: deserialize_def allocated_def not_includes_fresh)
  have upd1: "updateFirst (matches t)
                (setFollowers (followers (deserialize (heapNext s) d) @ [u])) (profiles s) = ?ps1"
    by (rule updateFirst_cong_find [OF target])
       (simp add: setFollowers_def addFollower_def deserialize_def bytes_fresh)
  show ?thesis
  proof (cases "find (matches u) ?ps1")
    case None
    then show ?thesis using target inc1 upd1
      by (simp add: followUser_def readOne_def partialUpdateOne_def Let_def updateFirst_none)
  next
    case (Some c)
    have inc2: "\<not> array_includes (following (deserialize (heapNext s + docSize d) c)) t"
      using assms(2) by (simp add: deserialize_def allocated_def not_includes_fresh)
    have upd2: "updateFirst (matches u)
                  (setFollowing (following (deserialize (heapNext s + docSize d) c) @ [t])) ?ps1
                = updateFirst (matches u) (addFollowing (bytes t)) ?ps1"
      by (rule updateFirst_cong_find [OF Some])
         (simp add: setFollowing_def addFollowing_def deserialize_def bytes_fresh)
    show ?thesis using target Some inc1 inc2 upd1 upd2
      by (simp add: followUser_def readOne_def partialUpdateOne_def Let_def)
  qed
qed

text \<open>What a call stores in general: each of the two updates is made or not.\<close>

lemma followUser_shape:
  "\<exists>f g. (f = (\<lambda>d. d) \<or> f = addFollower (bytes u)) \<and>
         (g = (\<lambda>d. d) \<or> g = addFollowing (bytes t)) \<and>
         profiles (snd (followUser u t s)) =
           updateFirst (matches u) g (updateFirst (matches t) f (profiles s))"
proof (cases "find (matches t) (profiles s)")
  case None
  then have "profiles (snd (followUser u t s)) = profiles s"
    by (simp add: followUser_def readOne_def)
  then have "profiles (snd (followUser u t s)) =
      updateFirst (matches u) (\<lambda>d. d) (updateFirst (matches t) (\<lambda>d. d) (profiles s))"
    by (simp add: updateFirst_id)
  then show ?thesis by blast
next
  case (Some d)
  note target = Some
  define ps1 where "ps1 = profiles (if \<not> array_includes (followers (deserialize (heapNext s) d)) u
        then partialUpdateOne t (setFollowers (followers (deserialize (heapNext s) d) @ [u]))
               (s\<lparr>heapNext := heapNext s + docSize d\<rparr>)
        else s\<lparr>heapNext := heapNext s + docSize d\<rparr>)"
  have upd1: "updateFirst (matches t)
                (setFollowers (followers (deserialize (heapNext s) d) @ [u])) (profiles s)
              = updateFirst (matches t) (addFollower (bytes u)) (profiles s)"
    by (rule updateFirst_cong_find [OF target])
       (simp add: setFollowers_def addFollower_def deserialize_def bytes_fresh)
  have "ps1 = profiles s \<or> ps1 = updateFirst (matches t) (addFollower (bytes u)) (profiles s)"
    using upd1 by (simp add: ps1_def partialUpdateOne_def)
  then obtain f where f: "f = (\<lambda>d. d) \<or> f = addFollower (bytes u)"
      and ps1: "ps1 = updateFirst (matches t) f (profiles s)"
    by (metis updateFirst_id)
  have "\<exists>g. (g = (\<lambda>d. d) \<or> g = addFollowing (bytes t)) \<and>
          profiles (snd (followUser u t s)) = updateFirst (matches u) g ps1"
  proof (cases "find (matches u) ps1")
    case None
    then have "profiles (snd (followUser u t s)) = ps1"
      using target
      by (simp add: followUser_def readOne_def Let_def ps1_def partialUpdateOne_def
               split: if_splits)
    then have "profiles (snd (followUser u t s)) = updateFirst (matches u) (\<lambda>d. d) ps1"
      by (simp add: updateFirst_id)
    then show ?thesis by blast
  next
    case (Some c)
    have upd2: "\<And>n. updateFirst (matches u)
                  (setFollowing (following (deserialize n c) @ [t])) ps1
                = updateFirst (matches u) (addFollowing (bytes t)) ps1"
      by (rule updateFirst_cong_find [OF Some])
         (simp add: setFollowing_def addFollowing_def deserialize_def bytes_fresh)
    have "profiles (snd (followUser u t s)) = ps1 \<or>
          profiles (snd (followUser u t s)) = updateFirst (matches u) (addFollowing (bytes t)) ps1"
      using target Some upd2
      by (simp add: followUser_def readOne_def Let_def ps1_def partialUpdateOne_def
               split: if_splits)
    then show ?thesis by (metis updateFirst_id)
  qed
  with f ps1 show ?thesis by blast
qed

lemma followUser_heapNext: "heapNext s \<le> heapNext (snd (followUser u t s))"
  by (simp add: followUser_def readOne_def partialUpdateOne_def Let_def
           split: option.splits)

lemma profileOf_ids: "(a \<in> set (map userId (profiles s))) = (profileOf s a \<noteq> None)"
  by (auto simp: profileOf_def find_None_iff)

lemma symmetric_iff:
  "symmetric s = (\<forall>a b pa pb. profileOf s a = Some pa \<longrightarrow> profileOf s b = Some pb \<longrightarrow>
      (a \<in> set (followers pb)) = (b \<in> set (following pa)))"
  (is "_ = ?R")
proof
  assume sym: "symmetric s"
  show ?R
  proof (intro allI impI)
    fix a b pa pb
    assume pa: "profileOf s a = Some pa" and pb: "profileOf s b = Some pb"
    then have "a \<in> set (map userId (profiles s))" "b \<in> set (map userId (profiles s))"
      by (simp_all only: profileOf_ids) simp_all
    with sym have "(a \<in> set (followersOf s b)) = (b \<in> set (followingOf s a))"
      unfolding symmetric_def by blast
    with pa pb show "(a \<in> set (followers pb)) = (b \<in> set (following pa))"
      by (simp add: followersOf_def followingOf_def)
  qed
next
  assume r: ?R
  show "symmetric s"
    unfolding symmetric_def
  proof (intro ballI)
    fix a b
    assume "a \<in> set (map userId (profiles s))" "b \<in> set (map userId (profiles s))"
    then obtain pa pb where "profileOf s a = Some pa" "profileOf s b = Some pb"
      by (simp only: profileOf_ids) auto
    with r show "(a \<in> set (followersOf s b)) = (b \<in> set (followingOf s a))"
      by (simp add: followersOf_def followingOf_def)
  qed
qed

lemma profileOf_follow:
  assumes "allocated s u" "allocated s t" "profileOf s (bytes t) \<noteq> None"
  shows "profileOf (snd (followUser u t s)) a =
     map_option (\<lambda>p. p\<lparr>followers := followers p @ (if a = bytes t then [bytes u] else []),
                        following := following p @ (if a = bytes u then [bytes t] else [])\<rparr>)
       (profileOf s a)"
proof -
  let ?P = "\<lambda>d::nat ProfileDoc. userId d = a"
  let ?F = "addFollower (bytes u)" and ?G = "addFollowing (bytes t)"
  let ?ps1 = "updateFirst (matches t) ?F (profiles s)"
  have ps: "profiles (snd (followUser u t s)) = updateFirst (matches u) ?G ?ps1"
    using assms(3) followUser_allocated [OF assms(1,2)]
    by (auto simp: profileOf_def matches_eq)
  have F: "\<And>d. ?P (?F d) = ?P d" and G: "\<And>d. ?P (?G d) = ?P d"
    by (simp_all add: addFollower_def addFollowing_def)
  have inner: "find ?P ?ps1 =
      map_option (if a = bytes t then ?F else (\<lambda>d. d)) (find ?P (profiles s))"
  proof (cases "a = bytes t")
    case True
    then show ?thesis using find_updateFirst_same [of ?P ?F "profiles s"] F
      by (simp add: matches_eq)
  next
    case False
    then have "find ?P ?ps1 = find ?P (profiles s)"
      by (intro find_updateFirst_other) (auto simp: F matches_def)
    with False show ?thesis by (simp add: option.map_ident)
  qed
  have outer: "find ?P (updateFirst (matches u) ?G ?ps1) =
      map_option (if a = bytes u then ?G else (\<lambda>d. d)) (find ?P ?ps1)"
  proof (cases "a = bytes u")
    case True
    then show ?thesis using find_updateFirst_same [of ?P ?G ?ps1] G
      by (simp add: matches_eq)
  next
    case False
    then have "find ?P (updateFirst (matches u) ?G ?ps1) = find ?P ?ps1"
      by (intro find_updateFirst_other) (auto simp: G matches_def)
    with False show ?thesis by (simp add: option.map_ident)
  qed
  show ?thesis
    unfolding profileOf_def ps outer inner
    by (cases "find ?P (profiles s)") (simp_all add: addFollower_def addFollowing_def)
qed

lemma followUser_absent:
  "profileOf s (bytes t) = None \<Longrightarrow> followUser u t s = (Inl (ProfileNotFoundError t), s)"
  by (simp add: followUser_def readOne_def profileOf_def matches_eq)

lemma symmetric_followUser:
  assumes "symmetric s" "allocated s u" "allocated s t"
  shows "symmetric (snd (followUser u t s))"
proof (cases "profileOf s (bytes t)")
  case None
  then show ?thesis using assms(1) by (simp add: followUser_absent)
next
  case (Some d)
  then have ex: "profileOf s (bytes t) \<noteq> None" by simp
  note step = profileOf_follow [OF assms(2,3) ex]
  show ?thesis
    unfolding symmetric_iff
  proof (intro allI impI)
    fix a b pa pb
    assume a: "profileOf (snd (followUser u t s)) a = Some pa"
      and b: "profileOf (snd (followUser u t s)) b = Some pb"
    from a obtain qa where qa: "profileOf s a = Some qa"
      and pa: "following pa = following qa @ (if a = bytes u then [bytes t] else [])"
      by (auto simp: step)
    from b obtain qb where qb: "profileOf s b = Some qb"
      and pb: "followers pb = followers qb @ (if b = bytes t then [bytes u] else [])"
      by (auto simp: step)
    from assms(1) qa qb have "(a \<in> set (followers qb)) = (b \<in> set (following qa))"
      unfolding symmetric_iff by blast
    then show "(a \<in> set (followers pb)) = (b \<in> set (following pa))"
      by (auto simp: pa pb)
  qed
qed

lemma symmetric_followAll:
  "symmetric s \<Longrightarrow> allocatedAll ops s \<Longrightarrow> symmetric (followAll ops s)"
proof (induction ops arbitrary: s)
  case Nil
  then show ?case by simp
next
  case (Cons op ops)
  obtain u t where op: "op = (u, t)" by (cases op)
  with Cons.prems have "symmetric (snd (followUser u t s))"
    by (simp add: symmetric_followUser)
  with Cons.prems op show ?case by (simp add: Cons.IH)
qed


lemma symmetric_initial:
  "\<forall>d \<in> set (profiles s). followers d = [] \<and> following d = [] \<Longrightarrow> symmetric s"
proof -
  assume empty: "\<forall>d \<in> set (profiles s). followers d = [] \<and> following d = []"
  have "\<And>a p. profileOf s a = Some p \<Longrightarrow> followers p = [] \<and> following p = []"
    using empty by (auto simp: profileOf_def find_Some_iff)
  then show ?thesis
    unfolding symmetric_iff by simp
qed

text \<open>
  With both profiles stored and the arguments allocated, a call appends to both arrays
  whatever they hold.
\<close>

lemma followUser_appends:
  assumes "allocated s u" "allocated s t"
    and "profileOf s (bytes t) \<noteq> None" and "profileOf s (bytes u) \<noteq> None"
  shows "followersOf (snd (followUser u t s)) (bytes t) = followersOf s (bytes t) @ [bytes u]"
    and "followingOf (snd (followUser u t s)) (bytes u) = followingOf s (bytes u) @ [bytes t]"
  using assms(3,4)
  by (auto simp: followersOf_def followingOf_def profileOf_follow [OF assms(1,2,3)])

lemma distinct_sendRequest:
  "distinct (requests s) \<Longrightarrow> sendRequest from to s = Inr s' \<Longrightarrow> distinct (requests s')"
  by (auto simp: sendRequest_def split: if_splits)

lemmas follow_defs = followUser_def readOne_def partialUpdateOne_def matches_def
  deserialize_def fresh_def docSize_def array_includes_def setFollowers_def
  setFollowing_def Let_def profileOf_def followersOf_def followingOf_def allocated_def

section \<open>The claims\<close>

text \<open>
  C1. Symmetry of the follow graph: from a state in which the two mirrors agree
  (in particular one whose profiles were just created, \<open>symmetric_initial\<close>), after
  any sequence of \<open>followUser\<close> calls, for all identities \<open>a\<close> and \<open>b\<close> whose profiles
  exist, \<open>a\<close> is in the followers of \<open>b\<close> if and only if \<open>b\<close> is in the following
  of \<open>a\<close>.
\<close>

theorem follow_symmetry:
  assumes "symmetric s" and "allocatedAll ops s"
  shows "\<forall>a b pa pb. profileOf (followAll ops s) a = Some pa \<longrightarrow>
           profileOf (followAll ops s) b = Some pb \<longrightarrow>
           (a \<in> set (followers pb)) = (b \<in> set (following pa))"
  using symmetric_followAll [OF assms] by (simp only: symmetric_iff)

theorem follow_symmetry_witness:
  "symmetric aliceAndBob \<and>
   allocatedAll [(alice, bob), (bob, alice), (alice, bob), (alice, alice)] aliceAndBob \<and>
   (bytes alice \<in> set (followersOf
        (followAll [(alice, bob), (bob, alice), (alice, bob), (alice, alice)] aliceAndBob)
        (bytes bob))) =
   (bytes bob \<in> set (followingOf
        (followAll [(alice, bob), (bob, alice), (alice, bob), (alice, alice)] aliceAndBob)
        (bytes alice)))"
proof -
  let ?ops = "[(alice, bob), (bob, alice), (alice, bob), (alice, alice)]"
  have h1: "symmetric aliceAndBob"
    by (simp add: symmetric_def alice_def bob_def emptyState_def onlyAlice_def onlyBob_def aliceAndBob_def createProfile_def createOne_def follow_defs)
  have h2: "allocatedAll ?ops aliceAndBob"
    by (simp add: alice_def bob_def emptyState_def onlyAlice_def onlyBob_def aliceAndBob_def createProfile_def createOne_def follow_defs)
  have "profileOf (followAll ?ops aliceAndBob) (bytes alice) \<noteq> None"
    and "profileOf (followAll ?ops aliceAndBob) (bytes bob) \<noteq> None"
    by (simp_all add: alice_def bob_def emptyState_def onlyAlice_def onlyBob_def aliceAndBob_def createProfile_def createOne_def follow_defs)
  then obtain pa pb where pa: "profileOf (followAll ?ops aliceAndBob) (bytes alice) = Some pa"
    and pb: "profileOf (followAll ?ops aliceAndBob) (bytes bob) = Some pb"
    by blast
  from follow_symmetry [OF h1 h2] pa pb
  have "(bytes alice \<in> set (followers pb)) = (bytes bob \<in> set (following pa))"
    by blast
  with pa pb h1 h2 show ?thesis
    by (simp only: followersOf_def followingOf_def option.case simp_thms)
qed

text \<open>
  C2. Following twice is not what following once is. Starting from the two new
  profiles of alice and bob, one call leaves bob's followers as the one-element list
  of alice; the second call appends alice again, and bob to alice's following again:
  the arrays read from the store hold objects of their own, so the membership tests
  of lines 56 and 62 never find the argument.
\<close>

theorem follow_twice_duplicates:
  "followersOf (snd (followUser alice bob aliceAndBob)) (bytes bob) = [bytes alice] \<and>
   followingOf (snd (followUser alice bob aliceAndBob)) (bytes alice) = [bytes bob] \<and>
   followersOf (snd (followUser alice bob (snd (followUser alice bob aliceAndBob)))) (bytes bob)
     = [bytes alice, bytes alice] \<and>
   followingOf (snd (followUser alice bob (snd (followUser alice bob aliceAndBob)))) (bytes alice)
     = [bytes bob, bytes bob]"
  by (simp add: alice_def bob_def emptyState_def onlyAlice_def onlyBob_def aliceAndBob_def createProfile_def createOne_def follow_defs)

text \<open>
  Counterexample to C3 as stated: bob has a profile and alice has none;
  \<open>followUser(alice, bob)\<close> returns the success message, and bob's followers now
  hold alice.
\<close>

theorem follow_without_own_profile:
  "profileOf onlyBob (bytes alice) = None \<and>
   fst (followUser alice bob onlyBob) = Inr followedMsg \<and>
   followersOf (snd (followUser alice bob onlyBob)) (bytes bob) = [bytes alice]"
  by (simp add: alice_def bob_def emptyState_def onlyAlice_def onlyBob_def aliceAndBob_def createProfile_def createOne_def follow_defs)

text \<open>
  C3, amended. \<open>followUser(user, target)\<close> fails, with \<open>ProfileNotFoundError\<close> for the
  target, exactly when the target's profile is absent from storage; otherwise it
  returns the success message, also when the user's own profile is absent.
\<close>

theorem followUser_fails_iff_target_absent:
  "fst (followUser u t s) =
     (if profileOf s (bytes t) = None then Inl (ProfileNotFoundError t) else Inr followedMsg)"
  by (simp add: followUser_def readOne_def Let_def profileOf_def matches_eq
           split: option.splits)

theorem followUser_fails_iff_target_absent_witness:
  "profileOf onlyAlice (bytes bob) = None \<and>
   fst (followUser alice bob onlyAlice) = Inl (ProfileNotFoundError bob) \<and>
   profileOf onlyBob (bytes bob) \<noteq> None \<and>
   fst (followUser alice bob onlyBob) = Inr followedMsg"
proof -
  have a: "profileOf onlyAlice (bytes bob) = None"
    and b: "profileOf onlyBob (bytes bob) \<noteq> None"
    by (simp_all add: alice_def bob_def emptyState_def onlyAlice_def onlyBob_def aliceAndBob_def createProfile_def createOne_def profileOf_def)
  from a b followUser_fails_iff_target_absent [of alice bob onlyAlice]
    followUser_fails_iff_target_absent [of alice bob onlyBob]
  show ?thesis by simp
qed

text \<open>
  Counterexample to C4 as stated: alice has a profile with empty arrays;
  \<open>followUser(alice, alice)\<close> returns the success message and stores alice in both
  arrays of her own profile.
\<close>

theorem self_follow_accepted:
  "fst (followUser alice alice onlyAlice) = Inr followedMsg \<and>
   followersOf onlyAlice (bytes alice) = [] \<and>
   followingOf onlyAlice (bytes alice) = [] \<and>
   followersOf (snd (followUser alice alice onlyAlice)) (bytes alice) = [bytes alice] \<and>
   followingOf (snd (followUser alice alice onlyAlice)) (bytes alice) = [bytes alice]"
  by (simp add: alice_def bob_def emptyState_def onlyAlice_def onlyBob_def aliceAndBob_def createProfile_def createOne_def follow_defs)

text \<open>
  C4, amended. \<open>followUser(A, A)\<close> is not rejected. When the profile of \<open>A\<close> is absent
  the call fails with \<open>ProfileNotFoundError\<close> and leaves the state as it was; when it
  exists the call returns the success message, and afterwards \<open>A\<close> is among both the
  followers and the following of its own profile.
\<close>

theorem self_follow:
  assumes "allocated s a"
  shows "(profileOf s (bytes a) = None \<longrightarrow>
            followUser a a s = (Inl (ProfileNotFoundError a), s)) \<and>
         (profileOf s (bytes a) \<noteq> None \<longrightarrow>
            fst (followUser a a s) = Inr followedMsg \<and>
            bytes a \<in> set (followersOf (snd (followUser a a s)) (bytes a)) \<and>
            bytes a \<in> set (followingOf (snd (followUser a a s)) (bytes a)))"
proof (intro conjI impI)
  assume "profileOf s (bytes a) = None"
  then show "followUser a a s = (Inl (ProfileNotFoundError a), s)"
    by (rule followUser_absent)
next
  assume ex: "profileOf s (bytes a) \<noteq> None"
  then show "fst (followUser a a s) = Inr followedMsg"
    by (simp add: followUser_def readOne_def Let_def profileOf_def matches_eq
             split: option.splits)
  from ex obtain p where p: "profileOf s (bytes a) = Some p" by blast
  note step = profileOf_follow [OF assms assms ex, of "bytes a"]
  show "bytes a \<in> set (followersOf (snd (followUser a a s)) (bytes a))"
    by (simp add: followersOf_def step p)
  show "bytes a \<in> set (followingOf (snd (followUser a a s)) (bytes a))"
    by (simp add: followingOf_def step p)
qed

theorem self_follow_witness:
  "allocated onlyAlice alice \<and> profileOf onlyAlice (bytes alice) \<noteq> None \<and>
   fst (followUser alice alice onlyAlice) = Inr followedMsg \<and>
   bytes alice \<in> set (followersOf (snd (followUser alice alice onlyAlice)) (bytes alice)) \<and>
   bytes alice \<in> set (followingOf (snd (followUser alice alice onlyAlice)) (bytes alice)) \<and>
   allocated emptyState alice \<and> profileOf emptyState (bytes alice) = None \<and>
   followUser alice alice emptyState = (Inl (ProfileNotFoundError alice), emptyState)"
proof -
  have h1: "allocated onlyAlice alice" and h2: "profileOf onlyAlice (bytes alice) \<noteq> None"
    and h3: "allocated emptyState alice" and h4: "profileOf emptyState (bytes alice) = None"
    by (simp_all add: alice_def bob_def emptyState_def onlyAlice_def onlyBob_def aliceAndBob_def createProfile_def createOne_def allocated_def profileOf_def)
  from self_follow [OF h1] self_follow [OF h3] h1 h2 h3 h4 show ?thesis by blast
qed

text \<open>
  C5. When \<open>followUser\<close> fails, the state is exactly what it was before the call (and
  the error is \<open>ProfileNotFoundError\<close> for the target, the only error it throws).
\<close>

theorem followUser_failure_unchanged:
  "fst (followUser u t s) = Inl e \<Longrightarrow> snd (followUser u t s) = s \<and> e = ProfileNotFoundError t"
  by (auto simp: followUser_def readOne_def Let_def split: option.splits if_splits)

theorem followUser_failure_unchanged_witness:
  "fst (followUser alice bob onlyAlice) = Inl (ProfileNotFoundError bob) \<and>
   snd (followUser alice bob onlyAlice) = onlyAlice"
proof -
  have h: "fst (followUser alice bob onlyAlice) = Inl (ProfileNotFoundError bob)"
    by (simp add: alice_def bob_def emptyState_def onlyAlice_def onlyBob_def aliceAndBob_def createProfile_def createOne_def follow_defs)
  from followUser_failure_unchanged [OF h] h show ?thesis by simp
qed

text \<open>
  C6. Following again is not a silent no-op. In a stored state where alice is already
  among bob's followers and bob among alice's following, \<open>followUser(alice, bob)\<close>
  returns the success message and appends alice to bob's followers and bob to
  alice's following once more (in general: \<open>followUser_appends\<close>).
\<close>

theorem refollow_appends_again:
  "bytes alice \<in> set (followersOf aliceFollowsBob (bytes bob)) \<and>
   bytes bob \<in> set (followingOf aliceFollowsBob (bytes alice)) \<and>
   fst (followUser alice bob aliceFollowsBob) = Inr followedMsg \<and>
   followersOf (snd (followUser alice bob aliceFollowsBob)) (bytes bob)
     = followersOf aliceFollowsBob (bytes bob) @ [bytes alice] \<and>
   followingOf (snd (followUser alice bob aliceFollowsBob)) (bytes alice)
     = followingOf aliceFollowsBob (bytes alice) @ [bytes bob]"
  by (simp add: alice_def bob_def aliceFollowsBob_def follow_defs)

text \<open>
  C7. \<open>getFollowers\<close> and \<open>getFollowing\<close> return the identifiers of the followers and
  of the following array of the user's profile, in order; each fails with
  \<open>ProfileNotFoundError\<close> when the user has no profile; neither changes a stored
  document.
\<close>

theorem getFollowers_getFollowing:
  "map_sum id (map bytes) (fst (getFollowers u s)) =
     (case profileOf s (bytes u) of
        None \<Rightarrow> Inl (ProfileNotFoundError u) | Some p \<Rightarrow> Inr (followers p)) \<and>
   map_sum id (map bytes) (fst (getFollowing u s)) =
     (case profileOf s (bytes u) of
        None \<Rightarrow> Inl (ProfileNotFoundError u) | Some p \<Rightarrow> Inr (following p)) \<and>
   profiles (snd (getFollowers u s)) = profiles s \<and>
   profiles (snd (getFollowing u s)) = profiles s"
  by (simp add: getFollowers_def getFollowing_def readOne_def profileOf_def matches_eq
        deserialize_def bytes_fresh split: option.splits)

text \<open>
  C8. After \<open>acceptRequest(A, B)\<close> succeeds, the request from \<open>A\<close> is no longer among
  the requests addressed to \<open>B\<close>, the friends of \<open>A\<close> contain \<open>B\<close> and the friends of
  \<open>B\<close> contain \<open>A\<close>. The store holds at most one pending request for a pair.
\<close>

theorem accept_consumes_request:
  assumes "distinct (requests s)" and "acceptRequest a b s = Inr s'"
  shows "(a, b) \<notin> set (getRequests b s') \<and> b \<in> set (getFriends a s') \<and>
         a \<in> set (getFriends b s')"
proof -
  from assms(2) have mem: "(a, b) \<in> set (requests s)"
    and s': "s' = s\<lparr>requests := remove1 (a, b) (requests s),
                    friendships := friendships s @ [(a, b)]\<rparr>"
    by (auto simp: acceptRequest_def split: if_splits)
  from assms(1) have "(a, b) \<notin> set (remove1 (a, b) (requests s))" by simp
  then have r: "(a, b) \<notin> set (getRequests b s')" by (simp add: getRequests_def s')
  have "(a, b) \<in> set (filter (\<lambda>(x, y). x = a \<or> y = a) (friendships s'))"
    and "(a, b) \<in> set (filter (\<lambda>(x, y). x = b \<or> y = b) (friendships s'))"
    by (simp_all add: s')
  then have "b \<in> set (getFriends a s')" and "a \<in> set (getFriends b s')"
    unfolding getFriends_def by force+
  with r show ?thesis by simp
qed

theorem accept_consumes_request_witness:
  "sendRequest 101 102 noRequests = Inr \<lparr> requests = [(101, 102)], friendships = [] \<rparr> \<and>
   distinct (requests \<lparr> requests = [(101, 102)], friendships = [] \<rparr>) \<and>
   acceptRequest 101 102 \<lparr> requests = [(101, 102)], friendships = [] \<rparr>
     = Inr \<lparr> requests = [], friendships = [(101, 102)] \<rparr> \<and>
   (101, 102) \<notin> set (getRequests 102 \<lparr> requests = [], friendships = [(101, 102)] \<rparr>) \<and>
   102 \<in> set (getFriends 101 \<lparr> requests = [], friendships = [(101, 102)] \<rparr>) \<and>
   101 \<in> set (getFriends 102 \<lparr> requests = [], friendships = [(101, 102)] \<rparr>)"
proof -
  have h0: "sendRequest 101 102 noRequests = Inr \<lparr> requests = [(101, 102)], friendships = [] \<rparr>"
    by (simp add: sendRequest_def noRequests_def)
  have h1: "distinct (requests \<lparr> requests = [(101, 102)], friendships = [] \<rparr>)" by simp
  have h2: "acceptRequest 101 102 \<lparr> requests = [(101, 102)], friendships = [] \<rparr>
     = Inr \<lparr> requests = [], friendships = [(101, 102)] \<rparr>"
    by (simp add: acceptRequest_def)
  from accept_consumes_request [OF h1 h2] h0 h1 h2 show ?thesis by blast
qed

text \<open>
  C9. \<open>createProfile\<close> adds one document to the collection, and that document has
  empty followers, empty following and the verification status \<open>unverified\<close>,
  whatever the other arguments are.
\<close>

theorem createProfile_initial:
  "profiles (createProfile uid nm exps ints past gen s) =
     profiles s @ [last (profiles (createProfile uid nm exps ints past gen s))] \<and>
   followers (last (profiles (createProfile uid nm exps ints past gen s))) = [] \<and>
   following (last (profiles (createProfile uid nm exps ints past gen s))) = [] \<and>
   verificationStatus (last (profiles (createProfile uid nm exps ints past gen s))) = Unverified"
  by (simp add: createProfile_def createOne_def)

text \<open>
  C10. \<open>followUser\<close> keeps the number and order of the stored documents. In every
  document all fields other than followers and following keep their values; the old
  followers and following arrays are prefixes of the new ones; followers changes at
  most in a document of the target, following at most in a document of the user; a
  document of any third identity is unchanged.
\<close>

theorem followUser_frame:
  "length (profiles (snd (followUser u t s))) = length (profiles s) \<and>
   (\<forall>i < length (profiles s).
      let d = profiles s ! i; d' = profiles (snd (followUser u t s)) ! i in
        userId d' = userId d \<and> name d' = name d \<and> expertise d' = expertise d \<and>
        interests d' = interests d \<and> pastExperience d' = pastExperience d \<and>
        verificationStatus d' = verificationStatus d \<and> gender d' = gender d \<and>
        d' = d\<lparr>followers := followers d', following := following d'\<rparr> \<and>
        prefix (followers d) (followers d') \<and> prefix (following d) (following d') \<and>
        (userId d \<noteq> bytes t \<longrightarrow> followers d' = followers d) \<and>
        (userId d \<noteq> bytes u \<longrightarrow> following d' = following d) \<and>
        (userId d \<noteq> bytes t \<and> userId d \<noteq> bytes u \<longrightarrow> d' = d))"
proof -
  obtain f g where f: "f = (\<lambda>d. d) \<or> f = addFollower (bytes u)"
    and g: "g = (\<lambda>d. d) \<or> g = addFollowing (bytes t)"
    and ps: "profiles (snd (followUser u t s)) =
               updateFirst (matches u) g (updateFirst (matches t) f (profiles s))"
    using followUser_shape by blast
  let ?ps1 = "updateFirst (matches t) f (profiles s)"
  have len: "length (profiles (snd (followUser u t s))) = length (profiles s)"
    by (simp add: ps length_updateFirst)
  have each: "\<And>i. i < length (profiles s) \<Longrightarrow>
      (let d = profiles s ! i; d' = profiles (snd (followUser u t s)) ! i in
        userId d' = userId d \<and> name d' = name d \<and> expertise d' = expertise d \<and>
        interests d' = interests d \<and> pastExperience d' = pastExperience d \<and>
        verificationStatus d' = verificationStatus d \<and> gender d' = gender d \<and>
        d' = d\<lparr>followers := followers d', following := following d'\<rparr> \<and>
        prefix (followers d) (followers d') \<and> prefix (following d) (following d') \<and>
        (userId d \<noteq> bytes t \<longrightarrow> followers d' = followers d) \<and>
        (userId d \<noteq> bytes u \<longrightarrow> following d' = following d) \<and>
        (userId d \<noteq> bytes t \<and> userId d \<noteq> bytes u \<longrightarrow> d' = d))"
  proof -
    fix i assume i: "i < length (profiles s)"
    define d where "d = profiles s ! i"
    define d1 where "d1 = ?ps1 ! i"
    define d' where "d' = profiles (snd (followUser u t s)) ! i"
    have s1: "d1 = d \<or> (userId d = bytes t \<and> d1 = f d)"
      using nth_updateFirst [OF i, of "matches t" f] by (simp add: d_def d1_def matches_def)
    have "i < length ?ps1" using i by (simp add: length_updateFirst)
    from nth_updateFirst [OF this, of "matches u" g]
    have s2: "d' = d1 \<or> (userId d1 = bytes u \<and> d' = g d1)"
      by (simp add: d'_def d1_def ps matches_def)
    have "userId d' = userId d \<and> name d' = name d \<and> expertise d' = expertise d \<and>
        interests d' = interests d \<and> pastExperience d' = pastExperience d \<and>
        verificationStatus d' = verificationStatus d \<and> gender d' = gender d \<and>
        d' = d\<lparr>followers := followers d', following := following d'\<rparr> \<and>
        prefix (followers d) (followers d') \<and> prefix (following d) (following d') \<and>
        (userId d \<noteq> bytes t \<longrightarrow> followers d' = followers d) \<and>
        (userId d \<noteq> bytes u \<longrightarrow> following d' = following d) \<and>
        (userId d \<noteq> bytes t \<and> userId d \<noteq> bytes u \<longrightarrow> d' = d)"
      using s1 s2 f g by (auto simp: addFollower_def addFollowing_def)
    then show "?thesis i" by (simp add: Let_def d_def d'_def)
  qed
  from len each show ?thesis by blast
qed

theorem followUser_frame_witness:
  "(1::nat) < length (profiles aliceFollowsBob) \<and>
   length (profiles (snd (followUser alice bob aliceFollowsBob))) = 2 \<and>
   name (profiles (snd (followUser alice bob aliceFollowsBob)) ! 1) = ''Bob'' \<and>
   prefix [101] (followers (profiles (snd (followUser alice bob aliceFollowsBob)) ! 1)) \<and>
   following (profiles (snd (followUser alice bob aliceFollowsBob)) ! 1) = []"
proof -
  have i: "(1::nat) < length (profiles aliceFollowsBob)"
    by (simp add: aliceFollowsBob_def)
  have d: "profiles aliceFollowsBob ! 1 =
      \<lparr> userId = 102, name = ''Bob'', expertise = [], interests = [],
        pastExperience = [], verificationStatus = Unverified, gender = ''m'',
        followers = [101], following = [] \<rparr>"
    by (simp add: aliceFollowsBob_def)
  have u: "bytes alice = 101" by (simp add: alice_def)
  from followUser_frame [of alice bob aliceFollowsBob] i
  have "let d = profiles aliceFollowsBob ! 1;
            d' = profiles (snd (followUser alice bob aliceFollowsBob)) ! 1 in
        name d' = name d \<and> prefix (followers d) (followers d') \<and>
        (userId d \<noteq> bytes alice \<longrightarrow> following d' = following d)"
    by (simp add: Let_def)
  with d u have "name (profiles (snd (followUser alice bob aliceFollowsBob)) ! 1) = ''Bob'' \<and>
     prefix [101] (followers (profiles (snd (followUser alice bob aliceFollowsBob)) ! 1)) \<and>
     following (profiles (snd (followUser alice bob aliceFollowsBob)) ! 1) = []"
    by (simp add: Let_def)
  moreover have "length (profiles (snd (followUser alice bob aliceFollowsBob))) = 2"
    using followUser_frame [of alice bob aliceFollowsBob] by (simp add: aliceFollowsBob_def)
  ultimately show ?thesis using i by blast
qed

end
